theory Spec2Isabelle
  imports Main "HOL-Library.Word" "HOL-Library.Sublist"
begin

section \<open>Upload-bound transferables of the large-file store (lfs/upload_queue.go)\<close>

text \<open>
  The Go file builds an \<open>Uploadable\<close> for an object identifier, reconciles the
  content-addressable store with the working copy (\<open>ensureFile\<close>) and streams the
  stored object to the remote (\<open>Transfer\<close>).  Everything the file does runs through
  collaborators that live outside it: the operating system, the path helpers, the
  pointer codec and the HTTP client.  They are the fields of an environment record
  and act on a world of type \<open>'w\<close>.  Each function of the file returns its result,
  the world it leaves behind and the list of calls it made, in order.
\<close>

subsection \<open>Data\<close>

type_synonym int64 = "64 word"

type_synonym bytes = "char list"

text \<open>A Go function that dereferences nil does not return: it panics.\<close>

datatype 'a outcome = Panic | Return 'a

text \<open>\<open>*os.PathError\<close>: the operation, the path and the underlying cause.\<close>

datatype os_error = PathError string string string

text \<open>
  Error values.  \<open>Errorf f args\<close> is \<open>fmt.Errorf(f, args...)\<close>, kept as the format
  and its arguments; \<open>errutil_Errorf e f args\<close> and \<open>errutil_Error e\<close> are the
  wrappers of package errutil around an underlying error \<open>e\<close>; \<open>UploadError\<close> and
  \<open>AuthExpired\<close> are the two failures the spec names for an upload; \<open>Other\<close> is any
  error a collaborator reports in its own words.
\<close>

datatype error =
    OsError os_error
  | Errorf string "string list"
  | errutil_Errorf error string "string list"
  | errutil_Error error
  | UploadError error
  | AuthExpired
  | Other string

text \<open>\<open>os.FileInfo\<close>, of which only \<open>Size()\<close> is read.\<close>

record fileinfo =
  fi_Size :: int64

text \<open>An open \<open>*os.File\<close>: its name and the bytes not yet read from it.\<close>

record osfile =
  file_Name :: string
  file_contents :: bytes

text \<open>The result of \<open>PointerClean\<close>: the pointer's OID and the staging file it holds.\<close>

record cleanedAsset =
  cleaned_Oid :: string
  cleaned_File :: string

text \<open>
  \<open>api.ObjectResource\<close> with its action links; the expiry of a link is a point in
  time, in seconds.
\<close>

record linkRelation =
  href :: string
  header :: "(string \<times> string) list"
  expires_at :: int

record objectResource =
  obj_Oid :: string
  obj_Size :: int64
  obj_Actions :: "(string \<times> linkRelation) list"

record Uploadable =
  u_oid :: string
  u_OidPath :: string
  u_Filename :: string
  u_size :: int64
  u_object :: "objectResource option"

text \<open>
  The calls a function makes, as they are observed from outside, one constructor for
  each callee: \<open>LocalMediaPath\<close>, \<open>os.Stat\<close>, \<open>os.Open\<close>, \<open>File.Stat\<close>,
  \<open>PointerClean\<close>, \<open>Teardown\<close>, \<open>File.Close\<close>, \<open>api.UploadCheck\<close>, the progress
  callback and the transport.  \<open>EvEnsureFile\<close> marks the entry into \<open>ensureFile\<close>.
\<close>

datatype event =
    EvLocalMediaPath string
  | EvEnsureFile string string
  | EvStat string
  | EvOpen string
  | EvFileStat string
  | EvClean string int64
  | EvTeardown cleanedAsset
  | EvClose string
  | EvUploadCheck string
  | EvProgress int64 int64 int
  | EvSend string bytes

text \<open>\<open>progress.CopyCallback\<close>: \<open>func(total, read int64, current int) error\<close>.\<close>

type_synonym 'w callback = "int64 \<Rightarrow> int64 \<Rightarrow> int \<Rightarrow> 'w \<Rightarrow> error option \<times> 'w"

text \<open>
  The collaborators.  \<open>os.Stat\<close>, \<open>os.Open\<close> and \<open>File.Stat\<close> read the world;
  \<open>LocalMediaPath\<close>, \<open>PointerClean\<close>, \<open>Teardown\<close>, \<open>api.UploadCheck\<close> and the
  transport may change it.  \<open>PointerClean\<close> returns a pointer and an error, either of
  which may be nil.  \<open>clock\<close> reads the time of the world, in seconds, and
  \<open>bufferSize\<close> is the number of bytes the transport takes from a reader at once.
\<close>

record 'w env =
  LocalWorkingDir :: string
  LocalMediaPath :: "string \<Rightarrow> 'w \<Rightarrow> (error + string) \<times> 'w"
  os_Stat :: "string \<Rightarrow> 'w \<Rightarrow> os_error + fileinfo"
  os_Open :: "string \<Rightarrow> 'w \<Rightarrow> os_error + osfile"
  file_Stat :: "osfile \<Rightarrow> 'w \<Rightarrow> os_error + fileinfo"
  PointerClean :: "osfile \<Rightarrow> string \<Rightarrow> int64 \<Rightarrow> 'w callback option \<Rightarrow> 'w
                     \<Rightarrow> (cleanedAsset option \<times> error option) \<times> 'w"
  Teardown :: "cleanedAsset \<Rightarrow> 'w \<Rightarrow> 'w"
  filepath_Base :: "string \<Rightarrow> string"
  filepath_Dir :: "string \<Rightarrow> string"
  filepath_Join :: "string \<Rightarrow> string \<Rightarrow> string"
  UploadCheck :: "string \<Rightarrow> 'w \<Rightarrow> (objectResource option \<times> error option) \<times> 'w"
  http_send :: "string \<Rightarrow> bytes \<Rightarrow> 'w \<Rightarrow> error option \<times> 'w"
  clock :: "'w \<Rightarrow> int"
  bufferSize :: nat

subsection \<open>ensureFile\<close>

definition mismatch_format :: string where
  "mismatch_format = ''Trying to push %q with OID %s.\<newline>Not found in %s.''"

text \<open>
  The part of \<open>ensureFile\<close> that runs while the working-copy file is open, that is
  between \<open>defer file.Close()\<close> and the return.
\<close>

definition ensureFile_opened ::
  "'w env \<Rightarrow> string \<Rightarrow> string \<Rightarrow> string \<Rightarrow> osfile \<Rightarrow> 'w
     \<Rightarrow> error option outcome \<times> 'w \<times> event list" where
  "ensureFile_opened E smudgePath cleanPath expectedOid f w =
     (case file_Stat E f w of
        Inl err \<Rightarrow> (Return (Some (OsError err)), w, [EvFileStat (file_Name f)])
      | Inr stat \<Rightarrow>
          (case PointerClean E f (file_Name f) (fi_Size stat) None w of
             ((cleaned, err), w1) \<Rightarrow>
               (case (case cleaned of
                        None \<Rightarrow> (w1, [])
                      | Some c \<Rightarrow> (Teardown E c w1, [EvTeardown c])) of
                  (w2, td) \<Rightarrow>
                    (let evs = [EvFileStat (file_Name f),
                                EvClean (file_Name f) (fi_Size stat)] @ td
                     in case err of
                          Some e \<Rightarrow> (Return (Some e), w2, evs)
                        | None \<Rightarrow>
                            (case cleaned of
                               None \<Rightarrow> (Panic, w2, evs)
                             | Some c \<Rightarrow>
                                 if expectedOid \<noteq> cleaned_Oid c
                                 then (Return (Some (Errorf mismatch_format
                                         [smudgePath, expectedOid, filepath_Dir E cleanPath])),
                                       w2, evs)
                                 else (Return None, w2, evs))))))"

definition ensureFile ::
  "'w env \<Rightarrow> string \<Rightarrow> string \<Rightarrow> 'w \<Rightarrow> error option outcome \<times> 'w \<times> event list" where
  "ensureFile E smudgePath cleanPath w =
     (case os_Stat E cleanPath w of
        Inr fi \<Rightarrow> (Return None, w, [EvEnsureFile smudgePath cleanPath, EvStat cleanPath])
      | Inl err0 \<Rightarrow>
          (let expectedOid = filepath_Base E cleanPath;
               localPath = filepath_Join E (LocalWorkingDir E) smudgePath;
               pre = [EvEnsureFile smudgePath cleanPath, EvStat cleanPath, EvOpen localPath]
           in case os_Open E localPath w of
                Inl err \<Rightarrow> (Return (Some (OsError err)), w, pre)
              | Inr f \<Rightarrow>
                  (case ensureFile_opened E smudgePath cleanPath expectedOid f w of
                     (r, w', evs) \<Rightarrow> (r, w', pre @ evs @ [EvClose (file_Name f)]))))"

subsection \<open>NewUploadable and the accessors\<close>

definition upload_error_format :: string where
  "upload_error_format = ''Error uploading file %s (%s)''"

definition NewUploadable ::
  "'w env \<Rightarrow> string \<Rightarrow> string \<Rightarrow> 'w \<Rightarrow> (error + Uploadable) outcome \<times> 'w \<times> event list" where
  "NewUploadable E oid filename w =
     (case LocalMediaPath E oid w of
        (Inl err, w1) \<Rightarrow>
          (Return (Inl (errutil_Errorf err upload_error_format [filename, oid])),
           w1, [EvLocalMediaPath oid])
      | (Inr localMediaPath, w1) \<Rightarrow>
          (case (if length filename > 0 then ensureFile E filename localMediaPath w1
                 else (Return None, w1, [])) of
             (Panic, w2, evs) \<Rightarrow> (Panic, w2, EvLocalMediaPath oid # evs)
           | (Return (Some err), w2, evs) \<Rightarrow> (Return (Inl err), w2, EvLocalMediaPath oid # evs)
           | (Return None, w2, evs) \<Rightarrow>
               (case os_Stat E localMediaPath w2 of
                  Inl err \<Rightarrow>
                    (Return (Inl (errutil_Errorf (OsError err) upload_error_format
                                    [filename, oid])),
                     w2, EvLocalMediaPath oid # evs @ [EvStat localMediaPath])
                | Inr fi \<Rightarrow>
                    (Return (Inr \<lparr>u_oid = oid, u_OidPath = localMediaPath,
                                  u_Filename = filename, u_size = fi_Size fi,
                                  u_object = None\<rparr>),
                     w2, EvLocalMediaPath oid # evs @ [EvStat localMediaPath]))))"

definition Object :: "Uploadable \<Rightarrow> objectResource option" where
  "Object u = u_object u"

definition Oid :: "Uploadable \<Rightarrow> string" where
  "Oid u = u_oid u"

definition Size :: "Uploadable \<Rightarrow> int64" where
  "Size u = u_size u"

definition Name :: "Uploadable \<Rightarrow> string" where
  "Name u = u_Filename u"

definition SetObject :: "Uploadable \<Rightarrow> objectResource option \<Rightarrow> Uploadable" where
  "SetObject u o' = u\<lparr>u_object := o'\<rparr>"

definition Check ::
  "'w env \<Rightarrow> Uploadable \<Rightarrow> 'w \<Rightarrow> (objectResource option \<times> error option) \<times> 'w \<times> event list" where
  "Check E u w =
     (case UploadCheck E (u_OidPath u) w of
        (r, w') \<Rightarrow> (r, w', [EvUploadCheck (u_OidPath u)]))"

subsection \<open>Transfer\<close>

text \<open>
  The closure \<open>wcb\<close> of \<open>Transfer\<close>: it calls \<open>cb\<close>, drops what \<open>cb\<close> returns and
  returns nil.  Calling a nil \<open>cb\<close> panics.
\<close>

definition wcb ::
  "'w callback option \<Rightarrow> int64 \<Rightarrow> int64 \<Rightarrow> int \<Rightarrow> 'w
     \<Rightarrow> error option outcome \<times> 'w \<times> event list" where
  "wcb cb tot read current w =
     (case cb of
        None \<Rightarrow> (Panic, w, [])
      | Some f \<Rightarrow>
          (case f tot read current w of
             (r, w') \<Rightarrow> (Return None, w', [EvProgress tot read current])))"

text \<open>
  \<open>progress.CallbackReader\<close>, declared outside the given sources: the three fields
  that \<open>Transfer\<close> sets, and \<open>ReadSize\<close>, the count of bytes that went through it, zero
  in a new reader.
\<close>

record 'w CallbackReader =
  cr_C :: "int64 \<Rightarrow> int64 \<Rightarrow> int \<Rightarrow> 'w \<Rightarrow> error option outcome \<times> 'w \<times> event list"
  cr_TotalSize :: int64
  cr_ReadSize :: int64
  cr_Reader :: osfile

text \<open>
  Modelled from the spec: the methods of \<open>progress.CallbackReader\<close> are outside the
  given sources.  The reader after a chunk of at most \<open>n\<close> bytes has gone through
  it: the chunk is off the file and its length is added to the count.
\<close>

definition advance :: "nat \<Rightarrow> 'w CallbackReader \<Rightarrow> 'w CallbackReader" where
  "advance n r =
     r\<lparr>cr_ReadSize := cr_ReadSize r + of_nat (length (take n (file_contents (cr_Reader r)))),
       cr_Reader := (cr_Reader r)\<lparr>file_contents := drop n (file_contents (cr_Reader r))\<rparr>\<rparr>"

text \<open>
  Modelled from the spec: \<open>api.UploadObject\<close> is outside the given sources.  The spec
  has the transfer stream the object to the authorized upload URL, report
  \<open>(totalBytes, bytesSentSoFar, chunkSize)\<close> to the progress sink after each chunk,
  fail with \<open>UploadError\<close> on a transport failure and with \<open>AuthExpired\<close> if the
  expiry of the authorization has passed before the stream completes.  So each round
  of the loop first looks at the clock and fails with \<open>AuthExpired\<close> when the expiry
  of the link has passed; the stream is complete when the reader is at its end;
  otherwise the next chunk is sent to the URL, a failed send ends the loop with
  \<open>UploadError\<close>, and after a chunk that was sent the reader's callback is called
  with the total, the bytes sent so far and the length of the chunk.  A transport
  that takes no byte at a time makes no progress and fails.
\<close>

function UploadObject_stream ::
  "'w env \<Rightarrow> linkRelation \<Rightarrow> 'w CallbackReader \<Rightarrow> 'w
     \<Rightarrow> error option outcome \<times> 'w \<times> event list" where
  "UploadObject_stream E link r w =
     (if expires_at link < clock E w then (Return (Some AuthExpired), w, [])
      else if file_contents (cr_Reader r) = [] then (Return None, w, [])
      else if take (bufferSize E) (file_contents (cr_Reader r)) = []
      then (Return (Some (UploadError (Other ''no progress''))), w, [])
      else
        (case http_send E (href link) (take (bufferSize E) (file_contents (cr_Reader r))) w of
           (Some err, w1) \<Rightarrow>
             (Return (Some (UploadError err)), w1,
              [EvSend (href link) (take (bufferSize E) (file_contents (cr_Reader r)))])
         | (None, w1) \<Rightarrow>
             (case cr_C r (cr_TotalSize r) (cr_ReadSize (advance (bufferSize E) r))
                     (int (length (take (bufferSize E) (file_contents (cr_Reader r))))) w1 of
                (Panic, w2, evs) \<Rightarrow>
                  (Panic, w2,
                   EvSend (href link) (take (bufferSize E) (file_contents (cr_Reader r))) # evs)
              | (Return (Some err), w2, evs) \<Rightarrow>
                  (Return (Some (UploadError err)), w2,
                   EvSend (href link) (take (bufferSize E) (file_contents (cr_Reader r))) # evs)
              | (Return None, w2, evs) \<Rightarrow>
                  (case UploadObject_stream E link (advance (bufferSize E) r) w2 of
                     (res, w3, evs') \<Rightarrow>
                       (res, w3,
                        EvSend (href link) (take (bufferSize E) (file_contents (cr_Reader r)))
                          # evs @ evs')))))"
  by pat_completeness auto
termination
  by (relation "measure (\<lambda>(E, link, r, w). length (file_contents (cr_Reader r)))")
     (auto simp: advance_def)

declare UploadObject_stream.simps [simp del]

text \<open>
  Modelled from the spec: the upload URL is the link of the object's \<open>upload\<close>
  action; without that action nothing can be streamed and the upload fails.
\<close>

definition UploadObject ::
  "'w env \<Rightarrow> objectResource \<Rightarrow> 'w CallbackReader \<Rightarrow> 'w
     \<Rightarrow> error option outcome \<times> 'w \<times> event list" where
  "UploadObject E obj reader w =
     (case map_of (obj_Actions obj) ''upload'' of
        None \<Rightarrow> (Return (Some (UploadError (Other ''no upload action''))), w, [])
      | Some link \<Rightarrow> UploadObject_stream E link reader w)"

definition Transfer ::
  "'w env \<Rightarrow> Uploadable \<Rightarrow> 'w callback option \<Rightarrow> 'w
     \<Rightarrow> error option outcome \<times> 'w \<times> event list" where
  "Transfer E u cb w =
     (case u_object u of
        None \<Rightarrow> (Panic, w, [])
      | Some obj \<Rightarrow>
          (case LocalMediaPath E (obj_Oid obj) w of
             (Inl err, w1) \<Rightarrow>
               (Return (Some (errutil_Error err)), w1, [EvLocalMediaPath (obj_Oid obj)])
           | (Inr path, w1) \<Rightarrow>
               (case os_Open E path w1 of
                  Inl err \<Rightarrow>
                    (Return (Some (errutil_Error (OsError err))), w1,
                     [EvLocalMediaPath (obj_Oid obj), EvOpen path])
                | Inr f \<Rightarrow>
                    (let reader = \<lparr>cr_C = wcb cb, cr_TotalSize = obj_Size obj,
                                    cr_ReadSize = 0, cr_Reader = f\<rparr>
                     in case UploadObject E obj reader w1 of
                          (res, w2, evs) \<Rightarrow>
                            (res, w2,
                             [EvLocalMediaPath (obj_Oid obj), EvOpen path] @ evs
                               @ [EvClose (file_Name f)])))))"

subsection \<open>The methods of an Uploadable as a protocol\<close>

text \<open>
  A client holds an \<open>Uploadable\<close> and calls its methods in any order.  Only
  \<open>SetObject\<close> assigns a field; a panic ends the run.
\<close>

datatype 'w method_call =
    CallCheck
  | CallTransfer "'w callback option"
  | CallObject
  | CallOid
  | CallSize
  | CallName
  | CallSetObject "objectResource option"

definition apply_call ::
  "'w env \<Rightarrow> 'w method_call \<Rightarrow> Uploadable \<times> 'w \<Rightarrow> (Uploadable \<times> 'w) outcome" where
  "apply_call E c s =
     (case s of
        (u, w) \<Rightarrow>
          (case c of
             CallCheck \<Rightarrow> (case Check E u w of (r, w', evs) \<Rightarrow> Return (u, w'))
           | CallTransfer cb \<Rightarrow>
               (case Transfer E u cb w of
                  (Panic, w', evs) \<Rightarrow> Panic
                | (Return r, w', evs) \<Rightarrow> Return (u, w'))
           | CallObject \<Rightarrow> Return (u, w)
           | CallOid \<Rightarrow> Return (u, w)
           | CallSize \<Rightarrow> Return (u, w)
           | CallName \<Rightarrow> Return (u, w)
           | CallSetObject x \<Rightarrow> Return (SetObject u x, w)))"

fun run_calls ::
  "'w env \<Rightarrow> 'w method_call list \<Rightarrow> Uploadable \<times> 'w \<Rightarrow> (Uploadable \<times> 'w) outcome" where
  "run_calls E [] s = Return s"
| "run_calls E (c # cs) s =
     (case apply_call E c s of
        Panic \<Rightarrow> Panic
      | Return s' \<Rightarrow> run_calls E cs s')"

text \<open>The argument of the latest \<open>SetObject\<close> among the calls, or \<open>x\<close> when there is none.\<close>

fun last_SetObject ::
  "'w method_call list \<Rightarrow> objectResource option \<Rightarrow> objectResource option" where
  "last_SetObject [] x = x"
| "last_SetObject (CallSetObject y # cs) x = last_SetObject cs y"
| "last_SetObject (c # cs) x = last_SetObject cs x"

subsection \<open>What a stream of chunks looks like from outside\<close>

text \<open>The chunks in which a reader with buffer size \<open>n\<close> hands out \<open>xs\<close>.\<close>

function chunks :: "nat \<Rightarrow> 'a list \<Rightarrow> 'a list list" where
  "chunks n xs = (if xs = [] \<or> n = 0 then [] else take n xs # chunks n (drop n xs))"
  by pat_completeness auto
termination
  by (relation "measure (\<lambda>(n, xs). length xs)") auto

declare chunks.simps [simp del]

text \<open>
  The upload as the spec describes it, over the chunks of the object and without a
  reader: before each chunk, and before the stream is declared complete, the expiry
  of the link is compared with the clock; a chunk is sent to the URL of the link; a
  send that fails ends the upload with \<open>UploadError\<close>; after a chunk that was sent,
  the callback is told the total, the bytes sent so far and the length of the chunk.
  A nil callback cannot be called.
\<close>

fun spec_upload_chunks ::
  "'w env \<Rightarrow> linkRelation \<Rightarrow> 'w callback option \<Rightarrow> int64 \<Rightarrow> int64 \<Rightarrow> bytes list \<Rightarrow> 'w
     \<Rightarrow> error option outcome \<times> 'w \<times> event list" where
  "spec_upload_chunks E link cb tot sent [] w =
     (if expires_at link < clock E w then (Return (Some AuthExpired), w, [])
      else (Return None, w, []))"
| "spec_upload_chunks E link cb tot sent (c # cs) w =
     (if expires_at link < clock E w then (Return (Some AuthExpired), w, [])
      else
        (case http_send E (href link) c w of
           (Some err, w1) \<Rightarrow> (Return (Some (UploadError err)), w1, [EvSend (href link) c])
         | (None, w1) \<Rightarrow>
             (case cb of
                None \<Rightarrow> (Panic, w1, [EvSend (href link) c])
              | Some g \<Rightarrow>
                  (case g tot (sent + of_nat (length c)) (int (length c)) w1 of
                     (x, w2) \<Rightarrow>
                       (case spec_upload_chunks E link cb tot (sent + of_nat (length c)) cs w2 of
                          (res, w3, evs) \<Rightarrow>
                            (res, w3,
                             EvSend (href link) c
                               # EvProgress tot (sent + of_nat (length c)) (int (length c))
                               # evs))))))"

text \<open>
  The calls of an upload that goes through all of its chunks: each chunk on its way
  to the URL, and then the progress report with the bytes sent so far.
\<close>

fun stream_events :: "int64 \<Rightarrow> int64 \<Rightarrow> string \<Rightarrow> bytes list \<Rightarrow> event list" where
  "stream_events tot sent url [] = []"
| "stream_events tot sent url (c # cs) =
     EvSend url c # EvProgress tot (sent + of_nat (length c)) (int (length c))
       # stream_events tot (sent + of_nat (length c)) url cs"

fun sent_bytes :: "event list \<Rightarrow> bytes" where
  "sent_bytes [] = []"
| "sent_bytes (EvSend url c # es) = c @ sent_bytes es"
| "sent_bytes (e # es) = sent_bytes es"

fun is_ensureFile_call :: "event \<Rightarrow> bool" where
  "is_ensureFile_call (EvEnsureFile s c) = True"
| "is_ensureFile_call e = False"

fun is_Teardown_call :: "event \<Rightarrow> bool" where
  "is_Teardown_call (EvTeardown c) = True"
| "is_Teardown_call e = False"

fun is_Clean_call :: "event \<Rightarrow> bool" where
  "is_Clean_call (EvClean n s) = True"
| "is_Clean_call e = False"

subsection \<open>A small world to run the definitions in\<close>

text \<open>
  The world is a file system, a map from paths to contents.  Objects are stored under
  \<open>/cas/\<close>, the working copy is under \<open>/w\<close>, and the identifier of a content is the
  content itself, so that cleaning a file stores it under its own bytes.  The remote
  authorizes every upload with the same resource, and what is sent to a URL is kept
  under that URL, in the order in which it arrives.  The clock stands at 0.
\<close>

type_synonym fsys = "string \<Rightarrow> bytes option"

definition demo_object :: objectResource where
  "demo_object =
     \<lparr>obj_Oid = ''abc'', obj_Size = 3,
      obj_Actions = [(''upload'',
                      \<lparr>href = ''https://remote/abc'', header = [], expires_at = 100\<rparr>)]\<rparr>"

definition demo_env :: "fsys env" where
  "demo_env =
     \<lparr>LocalWorkingDir = ''/w'',
      LocalMediaPath = (\<lambda>oid w. (Inr (''/cas/'' @ oid), w)),
      os_Stat = (\<lambda>p w. case w p of
                          None \<Rightarrow> Inl (PathError ''stat'' p ''no such file or directory'')
                        | Some c \<Rightarrow> Inr \<lparr>fi_Size = of_nat (length c)\<rparr>),
      os_Open = (\<lambda>p w. case w p of
                          None \<Rightarrow> Inl (PathError ''open'' p ''no such file or directory'')
                        | Some c \<Rightarrow> Inr \<lparr>file_Name = p, file_contents = c\<rparr>),
      file_Stat = (\<lambda>f w. Inr \<lparr>fi_Size = of_nat (length (file_contents f))\<rparr>),
      PointerClean = (\<lambda>f name sz cb w.
                        ((Some \<lparr>cleaned_Oid = file_contents f, cleaned_File = ''/tmp/clean''\<rparr>,
                          None),
                         w(''/cas/'' @ file_contents f \<mapsto> file_contents f))),
      Teardown = (\<lambda>c w. w),
      filepath_Base = (\<lambda>p. rev (takeWhile (\<lambda>c. c \<noteq> CHR ''/'') (rev p))),
      filepath_Dir = (\<lambda>p. rev (drop 1 (dropWhile (\<lambda>c. c \<noteq> CHR ''/'') (rev p)))),
      filepath_Join = (\<lambda>a b. a @ ''/'' @ b),
      UploadCheck = (\<lambda>p w. ((Some demo_object, None), w)),
      http_send = (\<lambda>url c w.
                     (None, w(url \<mapsto> (case w url of None \<Rightarrow> c | Some sent \<Rightarrow> sent @ c)))),
      clock = (\<lambda>w. 0),
      bufferSize = 2\<rparr>"

text \<open>The same, with a media directory that cannot be created.\<close>

definition readonly_env :: "fsys env" where
  "readonly_env =
     demo_env\<lparr>LocalMediaPath := (\<lambda>oid w. (Inl (Other ''cannot create media directory''), w))\<rparr>"

text \<open>A codec that fails in the middle of the stream and hands back its staging file.\<close>

definition failing_clean_env :: "fsys env" where
  "failing_clean_env =
     demo_env\<lparr>PointerClean := (\<lambda>f name sz cb w.
        ((Some \<lparr>cleaned_Oid = [], cleaned_File = ''/tmp/clean''\<rparr>, Some (Other ''read failed'')),
         w))\<rparr>"

text \<open>
  One stored object \<open>abc\<close>; a working-copy file \<open>a.bin\<close> whose content differs from
  it, and a working-copy file \<open>h.bin\<close> whose content is not stored yet.
\<close>

definition demo_world :: fsys where
  "demo_world =
     [''/cas/abc'' \<mapsto> ''abc'', ''/w/a.bin'' \<mapsto> ''hello'', ''/w/h.bin'' \<mapsto> ''hello'']"

text \<open>A transport that loses the connection when the chunk \<open>c\<close> comes.\<close>

definition flaky_env :: "fsys env" where
  "flaky_env =
     demo_env\<lparr>http_send := (\<lambda>url c w.
        if c = ''c'' then (Some (Other ''connection reset''), w)
        else (None, w(url \<mapsto> (case w url of None \<Rightarrow> c | Some sent \<Rightarrow> sent @ c))))\<rparr>"

text \<open>A clock that has passed the expiry of the link.\<close>

definition late_env :: "fsys env" where
  "late_env = demo_env\<lparr>clock := (\<lambda>w. 101)\<rparr>"

definition other_object :: objectResource where
  "other_object = \<lparr>obj_Oid = ''hello'', obj_Size = 5, obj_Actions = []\<rparr>"

definition demo_uploadable :: Uploadable where
  "demo_uploadable =
     \<lparr>u_oid = ''abc'', u_OidPath = ''/cas/abc'', u_Filename = ''a.bin'', u_size = 3,
      u_object = None\<rparr>"

definition demo_callback :: "fsys callback" where
  "demo_callback = (\<lambda>tot read current w. (None, w))"

subsection \<open>Reconciliation when the store already holds the object\<close>

text \<open>
  C1.  When \<open>os.Stat\<close> succeeds on the clean path, \<open>ensureFile\<close> returns nil at once:
  the only call it makes is that \<open>os.Stat\<close>, so the working-copy file is not opened,
  clean is not run, nothing is compared, and the world is left as it was.
\<close>

theorem ensureFile_present:
  assumes "os_Stat E cleanPath w = Inr fi"
  shows "ensureFile E smudgePath cleanPath w =
           (Return None, w, [EvEnsureFile smudgePath cleanPath, EvStat cleanPath])"
  using assms by (simp add: ensureFile_def)

theorem ensureFile_present_witness:
  "os_Stat demo_env ''/cas/abc'' demo_world = Inr \<lparr>fi_Size = 3\<rparr> \<and>
   ensureFile demo_env ''a.bin'' ''/cas/abc'' demo_world =
     (Return None, demo_world, [EvEnsureFile ''a.bin'' ''/cas/abc'', EvStat ''/cas/abc''])"
proof -
  have h: "os_Stat demo_env ''/cas/abc'' demo_world = Inr \<lparr>fi_Size = 3\<rparr>"
    by (simp add: demo_env_def demo_world_def)
  from ensureFile_present [OF h, of "''a.bin''"] h show ?thesis by simp
qed

subsection \<open>Reconciliation from the working copy\<close>

text \<open>
  C2.  When \<open>os.Stat\<close> fails on the clean path, the working-copy file opens, and
  cleaning it succeeds with a pointer: \<open>ensureFile\<close> returns nil if the pointer's OID
  is the base name of the clean path, and otherwise the error built from the
  mismatch format with the working-copy path, the expected identifier and the
  directory of the clean path.
\<close>

theorem ensureFile_cleaned:
  assumes "os_Stat E cleanPath w = Inl e0"
    and "os_Open E (filepath_Join E (LocalWorkingDir E) smudgePath) w = Inr f"
    and "file_Stat E f w = Inr st"
    and "PointerClean E f (file_Name f) (fi_Size st) None w = ((Some c, None), w1)"
  shows "fst (ensureFile E smudgePath cleanPath w) =
           (if filepath_Base E cleanPath \<noteq> cleaned_Oid c
            then Return (Some (Errorf mismatch_format
                   [smudgePath, filepath_Base E cleanPath, filepath_Dir E cleanPath]))
            else Return None)"
  using assms by (simp add: ensureFile_def ensureFile_opened_def Let_def)

theorem ensureFile_cleaned_witness:
  "fst (ensureFile demo_env ''h.bin'' ''/cas/xyz'' demo_world) =
     Return (Some (Errorf mismatch_format [''h.bin'', ''xyz'', ''/cas''])) \<and>
   fst (ensureFile demo_env ''h.bin'' ''/cas/hello'' demo_world) = Return None"
proof -
  let ?f = "\<lparr>file_Name = ''/w/h.bin'', file_contents = ''hello''\<rparr>"
  have a: "os_Stat demo_env ''/cas/xyz'' demo_world =
             Inl (PathError ''stat'' ''/cas/xyz'' ''no such file or directory'')"
    by (simp add: demo_env_def demo_world_def)
  have a': "os_Stat demo_env ''/cas/hello'' demo_world =
             Inl (PathError ''stat'' ''/cas/hello'' ''no such file or directory'')"
    by (simp add: demo_env_def demo_world_def)
  have b: "os_Open demo_env (filepath_Join demo_env (LocalWorkingDir demo_env) ''h.bin'')
             demo_world = Inr ?f"
    by (simp add: demo_env_def demo_world_def)
  have c: "file_Stat demo_env ?f demo_world = Inr \<lparr>fi_Size = 5\<rparr>"
    by (simp add: demo_env_def)
  have d: "PointerClean demo_env ?f (file_Name ?f) (fi_Size \<lparr>fi_Size = 5\<rparr>) None demo_world =
           ((Some \<lparr>cleaned_Oid = ''hello'', cleaned_File = ''/tmp/clean''\<rparr>, None),
            demo_world(''/cas/hello'' \<mapsto> ''hello''))"
    by (simp add: demo_env_def)
  from ensureFile_cleaned [OF a b c d]
  have m: "fst (ensureFile demo_env ''h.bin'' ''/cas/xyz'' demo_world) =
             Return (Some (Errorf mismatch_format [''h.bin'', ''xyz'', ''/cas'']))"
    by (simp add: demo_env_def)
  from ensureFile_cleaned [OF a' b c d]
  have e: "fst (ensureFile demo_env ''h.bin'' ''/cas/hello'' demo_world) = Return None"
    by (simp add: demo_env_def)
  from m e show ?thesis by (rule conjI)
qed

text \<open>
  C3.  Once \<open>PointerClean\<close> has returned a pointer, whatever error comes with it and
  whatever its OID, \<open>ensureFile\<close> calls \<open>Teardown\<close> on that pointer exactly once,
  right after the clean and before the file is closed and the function returns; the
  world it leaves is the one \<open>Teardown\<close> produced.
\<close>

theorem ensureFile_teardown_once:
  assumes "os_Stat E cleanPath w = Inl e0"
    and "os_Open E (filepath_Join E (LocalWorkingDir E) smudgePath) w = Inr f"
    and "file_Stat E f w = Inr st"
    and "PointerClean E f (file_Name f) (fi_Size st) None w = ((Some c, err), w1)"
  shows "snd (ensureFile E smudgePath cleanPath w) =
           (Teardown E c w1,
            [EvEnsureFile smudgePath cleanPath, EvStat cleanPath,
             EvOpen (filepath_Join E (LocalWorkingDir E) smudgePath),
             EvFileStat (file_Name f), EvClean (file_Name f) (fi_Size st),
             EvTeardown c, EvClose (file_Name f)]) \<and>
         filter is_Teardown_call (snd (snd (ensureFile E smudgePath cleanPath w))) =
           [EvTeardown c]"
  using assms
  by (cases err) (simp_all add: ensureFile_def ensureFile_opened_def Let_def)

theorem ensureFile_teardown_once_witness:
  "fst (ensureFile failing_clean_env ''h.bin'' ''/cas/hello'' demo_world) =
     Return (Some (Other ''read failed'')) \<and>
   filter is_Teardown_call
     (snd (snd (ensureFile failing_clean_env ''h.bin'' ''/cas/hello'' demo_world))) =
     [EvTeardown \<lparr>cleaned_Oid = [], cleaned_File = ''/tmp/clean''\<rparr>]"
proof -
  let ?f = "\<lparr>file_Name = ''/w/h.bin'', file_contents = ''hello''\<rparr>"
  have a: "os_Stat failing_clean_env ''/cas/hello'' demo_world =
             Inl (PathError ''stat'' ''/cas/hello'' ''no such file or directory'')"
    by (simp add: failing_clean_env_def demo_env_def demo_world_def)
  have b: "os_Open failing_clean_env
             (filepath_Join failing_clean_env (LocalWorkingDir failing_clean_env) ''h.bin'')
             demo_world = Inr ?f"
    by (simp add: failing_clean_env_def demo_env_def demo_world_def)
  have c: "file_Stat failing_clean_env ?f demo_world = Inr \<lparr>fi_Size = 5\<rparr>"
    by (simp add: failing_clean_env_def demo_env_def)
  have d: "PointerClean failing_clean_env ?f (file_Name ?f) (fi_Size \<lparr>fi_Size = 5\<rparr>) None
             demo_world =
           ((Some \<lparr>cleaned_Oid = [], cleaned_File = ''/tmp/clean''\<rparr>,
             Some (Other ''read failed'')), demo_world)"
    by (simp add: failing_clean_env_def demo_env_def)
  have e: "fst (ensureFile failing_clean_env ''h.bin'' ''/cas/hello'' demo_world) =
             Return (Some (Other ''read failed''))"
    using a b c d by (simp add: ensureFile_def ensureFile_opened_def Let_def)
  from ensureFile_teardown_once [OF a b c d] e show ?thesis
    by simp
qed

text \<open>
  C10.  When \<open>os.Stat\<close> fails on the clean path and \<open>os.Open\<close> fails on the
  working-copy path under the local working directory, \<open>ensureFile\<close> returns the
  error of \<open>os.Open\<close>: it is not the mismatch error, and the calls end with the
  failed open, so clean is not run.
\<close>

theorem ensureFile_open_fails:
  assumes "os_Stat E cleanPath w = Inl e0"
    and "os_Open E (filepath_Join E (LocalWorkingDir E) smudgePath) w = Inl e"
  shows "ensureFile E smudgePath cleanPath w =
           (Return (Some (OsError e)), w,
            [EvEnsureFile smudgePath cleanPath, EvStat cleanPath,
             EvOpen (filepath_Join E (LocalWorkingDir E) smudgePath)]) \<and>
         fst (ensureFile E smudgePath cleanPath w) \<noteq> Return (Some (Errorf fmt args)) \<and>
         filter is_Clean_call (snd (snd (ensureFile E smudgePath cleanPath w))) = []"
  using assms by (simp add: ensureFile_def Let_def)

theorem ensureFile_open_fails_witness:
  "ensureFile demo_env ''nope.bin'' ''/cas/hello'' demo_world =
     (Return (Some (OsError (PathError ''open'' ''/w/nope.bin''
                               ''no such file or directory''))),
      demo_world,
      [EvEnsureFile ''nope.bin'' ''/cas/hello'', EvStat ''/cas/hello'',
       EvOpen ''/w/nope.bin''])"
proof -
  have a: "os_Stat demo_env ''/cas/hello'' demo_world =
             Inl (PathError ''stat'' ''/cas/hello'' ''no such file or directory'')"
    by (simp add: demo_env_def demo_world_def)
  have b: "os_Open demo_env (filepath_Join demo_env (LocalWorkingDir demo_env) ''nope.bin'')
             demo_world =
           Inl (PathError ''open'' ''/w/nope.bin'' ''no such file or directory'')"
    by (simp add: demo_env_def demo_world_def)
  from ensureFile_open_fails [OF a b] show ?thesis
    by (simp add: demo_env_def)
qed

subsection \<open>Construction of an Uploadable\<close>

lemma ensureFile_events_start:
  "\<exists>evs. snd (snd (ensureFile E s c w)) = EvEnsureFile s c # evs"
  by (auto simp: ensureFile_def Let_def split: sum.splits prod.splits)

lemma demo_reconcile_mismatch:
  "ensureFile demo_env ''h.bin'' ''/cas/xyz'' demo_world =
     (Return (Some (Errorf mismatch_format [''h.bin'', ''xyz'', ''/cas''])),
      demo_world(''/cas/hello'' \<mapsto> ''hello''),
      [EvEnsureFile ''h.bin'' ''/cas/xyz'', EvStat ''/cas/xyz'', EvOpen ''/w/h.bin'',
       EvFileStat ''/w/h.bin'', EvClean ''/w/h.bin'' 5,
       EvTeardown \<lparr>cleaned_Oid = ''hello'', cleaned_File = ''/tmp/clean''\<rparr>,
       EvClose ''/w/h.bin''])"
  by (simp add: ensureFile_def ensureFile_opened_def Let_def demo_env_def demo_world_def)

lemma demo_LocalMediaPath:
  "LocalMediaPath demo_env oid w = (Inr (''/cas/'' @ oid), w)"
  by (simp add: demo_env_def)

text \<open>
  C4, as the claim has it, fails: with a non-empty file name, \<open>NewUploadable\<close> does
  not reach \<open>ensureFile\<close> when \<open>LocalMediaPath\<close> fails, since it returns that
  failure first.
\<close>

theorem NewUploadable_skips_reconcile_counterexample:
  "''a.bin'' \<noteq> [] \<and>
   \<not> list_ex is_ensureFile_call
       (snd (snd (NewUploadable readonly_env ''abc'' ''a.bin'' demo_world)))"
  by (simp add: NewUploadable_def readonly_env_def demo_env_def)

text \<open>
  C4, amended.  When \<open>LocalMediaPath\<close> succeeds, \<open>NewUploadable\<close> calls \<open>ensureFile\<close>
  if and only if the file name is non-empty, and an error that \<open>ensureFile\<close> returns
  is what \<open>NewUploadable\<close> returns, with no call after it and no \<open>Uploadable\<close>.
\<close>

theorem NewUploadable_reconciles:
  assumes "LocalMediaPath E oid w = (Inr p, w1)"
  shows "(list_ex is_ensureFile_call (snd (snd (NewUploadable E oid filename w)))
            \<longleftrightarrow> filename \<noteq> []) \<and>
         (filename \<noteq> [] \<and> ensureFile E filename p w1 = (Return (Some err), w2, evs)
            \<longrightarrow> NewUploadable E oid filename w =
                  (Return (Inl err), w2, EvLocalMediaPath oid # evs))"
proof (cases "filename = []")
  case True
  with assms show ?thesis
    by (simp add: NewUploadable_def split: sum.splits)
next
  case False
  obtain r w' es where e: "ensureFile E filename p w1 = (r, w', es)"
    by (cases "ensureFile E filename p w1") auto
  from ensureFile_events_start [of E filename p w1] e
  obtain es' where es: "es = EvEnsureFile filename p # es'" by auto
  from False assms e es show ?thesis
    by (auto simp: NewUploadable_def split: sum.splits outcome.splits option.splits)
qed

theorem NewUploadable_reconciles_witness:
  "list_ex is_ensureFile_call (snd (snd (NewUploadable demo_env ''xyz'' ''h.bin'' demo_world))) \<and>
   NewUploadable demo_env ''xyz'' ''h.bin'' demo_world =
     (Return (Inl (Errorf mismatch_format [''h.bin'', ''xyz'', ''/cas''])),
      demo_world(''/cas/hello'' \<mapsto> ''hello''),
      [EvLocalMediaPath ''xyz'', EvEnsureFile ''h.bin'' ''/cas/xyz'', EvStat ''/cas/xyz'',
       EvOpen ''/w/h.bin'', EvFileStat ''/w/h.bin'', EvClean ''/w/h.bin'' 5,
       EvTeardown \<lparr>cleaned_Oid = ''hello'', cleaned_File = ''/tmp/clean''\<rparr>,
       EvClose ''/w/h.bin''])"
proof -
  have p: "LocalMediaPath demo_env ''xyz'' demo_world = (Inr ''/cas/xyz'', demo_world)"
    by (simp add: demo_LocalMediaPath)
  from NewUploadable_reconciles [OF p, of "''h.bin''"] demo_reconcile_mismatch
  show ?thesis by simp
qed

text \<open>
  C5.  \<open>NewUploadable\<close> produces an \<open>Uploadable\<close> only if \<open>os.Stat\<close> finds the object
  at the local media path in the world that the reconciliation step left, and the
  recorded size is the size \<open>os.Stat\<close> reports for it.  When the reconciliation step
  has returned and \<open>os.Stat\<close> then fails on that path, \<open>NewUploadable\<close> returns an
  error.
\<close>

theorem NewUploadable_needs_local_object:
  "(NewUploadable E oid filename w = (Return (Inr u), w', evs) \<longrightarrow>
      (\<exists>p wp fi. LocalMediaPath E oid w = (Inr p, wp) \<and> os_Stat E p w' = Inr fi \<and>
                 u_OidPath u = p \<and> u_size u = fi_Size fi)) \<and>
   (LocalMediaPath E oid w = (Inr q, wq) \<and>
    (if length filename > 0 then ensureFile E filename q wq else (Return None, wq, []))
      = (Return x, wr, evr) \<and>
    os_Stat E q wr = Inl e \<longrightarrow>
      (\<exists>err. fst (NewUploadable E oid filename w) = Return (Inl err)))"
  by (auto simp: NewUploadable_def
           split: sum.splits prod.splits outcome.splits option.splits if_splits)

theorem NewUploadable_needs_local_object_witness:
  "NewUploadable demo_env ''abc'' ''a.bin'' demo_world =
     (Return (Inr demo_uploadable), demo_world,
      [EvLocalMediaPath ''abc'', EvEnsureFile ''a.bin'' ''/cas/abc'', EvStat ''/cas/abc'',
       EvStat ''/cas/abc'']) \<and>
   (\<exists>fi. os_Stat demo_env ''/cas/abc'' demo_world = Inr fi \<and>
         u_size demo_uploadable = fi_Size fi) \<and>
   (\<exists>err. fst (NewUploadable demo_env ''xyz'' [] demo_world) = Return (Inl err))"
proof -
  have run: "NewUploadable demo_env ''abc'' ''a.bin'' demo_world =
     (Return (Inr demo_uploadable), demo_world,
      [EvLocalMediaPath ''abc'', EvEnsureFile ''a.bin'' ''/cas/abc'', EvStat ''/cas/abc'',
       EvStat ''/cas/abc''])"
    by (simp add: NewUploadable_def ensureFile_def demo_env_def demo_world_def
          demo_uploadable_def)
  have p: "LocalMediaPath demo_env ''xyz'' demo_world = (Inr ''/cas/xyz'', demo_world)"
    by (simp add: demo_LocalMediaPath)
  have r: "(if length ([] :: string) > 0 then ensureFile demo_env [] ''/cas/xyz'' demo_world
            else (Return None, demo_world, [])) = (Return None, demo_world, [])"
    by simp
  have s: "os_Stat demo_env ''/cas/xyz'' demo_world =
             Inl (PathError ''stat'' ''/cas/xyz'' ''no such file or directory'')"
    by (simp add: demo_env_def demo_world_def)
  from NewUploadable_needs_local_object [THEN conjunct1, rule_format, OF run]
  have a: "\<exists>fi. os_Stat demo_env ''/cas/abc'' demo_world = Inr fi \<and>
                u_size demo_uploadable = fi_Size fi"
    by (auto simp: demo_LocalMediaPath)
  from NewUploadable_needs_local_object [THEN conjunct2, rule_format, OF conjI [OF p conjI [OF r s]]]
  have b: "\<exists>err. fst (NewUploadable demo_env ''xyz'' [] demo_world) = Return (Inl err)" .
  from run a b show ?thesis by simp
qed

text \<open>
  C9.  A constructed \<open>Uploadable\<close> answers \<open>Oid()\<close> with the \<open>oid\<close> argument,
  \<open>Name()\<close> with the \<open>filename\<close> argument and \<open>Size()\<close> with the size that
  \<open>os.Stat\<close> reports for the local media path of \<open>oid\<close> at construction time; the
  working-copy file named by \<open>filename\<close> has no part in it.
\<close>

theorem NewUploadable_accessors:
  assumes "NewUploadable E oid filename w = (Return (Inr u), w', evs)"
  shows "Oid u = oid \<and> Name u = filename \<and>
         (\<exists>p w1 fi. LocalMediaPath E oid w = (Inr p, w1) \<and> os_Stat E p w' = Inr fi \<and>
                    Size u = fi_Size fi)"
  using assms
  by (auto simp: NewUploadable_def Oid_def Name_def Size_def
           split: sum.splits prod.splits outcome.splits option.splits if_splits)

theorem NewUploadable_accessors_witness:
  "Oid demo_uploadable = ''abc'' \<and> Name demo_uploadable = ''a.bin'' \<and>
   Size demo_uploadable = 3 \<and>
   demo_world ''/cas/abc'' = Some ''abc'' \<and> demo_world ''/w/a.bin'' = Some ''hello''"
proof -
  have run: "NewUploadable demo_env ''abc'' ''a.bin'' demo_world =
     (Return (Inr demo_uploadable), demo_world,
      [EvLocalMediaPath ''abc'', EvEnsureFile ''a.bin'' ''/cas/abc'', EvStat ''/cas/abc'',
       EvStat ''/cas/abc''])"
    by (simp add: NewUploadable_def ensureFile_def demo_env_def demo_world_def
          demo_uploadable_def)
  from NewUploadable_accessors [OF run]
  have "Oid demo_uploadable = ''abc''" and "Name demo_uploadable = ''a.bin''"
    and "\<exists>fi. os_Stat demo_env ''/cas/abc'' demo_world = Inr fi \<and>
              Size demo_uploadable = fi_Size fi"
    by (auto simp: demo_LocalMediaPath)
  moreover have "os_Stat demo_env ''/cas/abc'' demo_world = Inr \<lparr>fi_Size = 3\<rparr>"
    by (simp add: demo_env_def demo_world_def)
  ultimately show ?thesis
    by (auto simp: demo_world_def)
qed

subsection \<open>The streaming loop\<close>

lemma chunks_step:
  "xs \<noteq> [] \<Longrightarrow> 0 < n \<Longrightarrow> chunks n xs = take n xs # chunks n (drop n xs)"
  by (subst chunks.simps) simp

lemma chunks_nil: "chunks n [] = []"
  by (subst chunks.simps) simp

lemma concat_chunks: "0 < n \<Longrightarrow> concat (chunks n xs) = xs"
proof (induction "length xs" arbitrary: xs rule: less_induct)
  case less
  show ?case
  proof (cases "xs = []")
    case True
    then show ?thesis by (simp add: chunks_nil)
  next
    case False
    with less.prems have "length (drop n xs) < length xs" by simp
    from less.hyps [OF this less.prems] False less.prems show ?thesis
      by (simp add: chunks_step)
  qed
qed

lemma advance_fields:
  "cr_C (advance n r) = cr_C r"
  "cr_TotalSize (advance n r) = cr_TotalSize r"
  "cr_ReadSize (advance n r) =
     cr_ReadSize r + of_nat (length (take n (file_contents (cr_Reader r))))"
  "file_contents (cr_Reader (advance n r)) = drop n (file_contents (cr_Reader r))"
  by (simp_all add: advance_def)

lemma stream_refines:
  assumes "0 < bufferSize E" and "cr_C r = wcb cb"
  shows "UploadObject_stream E link r w =
           spec_upload_chunks E link cb (cr_TotalSize r) (cr_ReadSize r)
             (chunks (bufferSize E) (file_contents (cr_Reader r))) w"
  using assms(2)
proof (induction "length (file_contents (cr_Reader r))" arbitrary: r w rule: less_induct)
  case less
  show ?case
  proof (cases "file_contents (cr_Reader r) = []")
    case True
    then show ?thesis
      by (subst UploadObject_stream.simps) (simp add: chunks_nil)
  next
    case False
    let ?n = "bufferSize E"
    let ?c = "take ?n (file_contents (cr_Reader r))"
    let ?r' = "advance ?n r"
    have c: "?c \<noteq> []" using False assms(1) by simp
    have ch: "chunks ?n (file_contents (cr_Reader r)) =
                ?c # chunks ?n (file_contents (cr_Reader ?r'))"
      using False assms(1) by (simp add: chunks_step advance_fields)
    have shorter: "length (file_contents (cr_Reader ?r')) < length (file_contents (cr_Reader r))"
      using False assms(1) by (simp add: advance_fields)
    have cb': "cr_C ?r' = wcb cb"
      using less.prems by (simp add: advance_fields)
    have IH: "UploadObject_stream E link ?r' w' =
                spec_upload_chunks E link cb (cr_TotalSize r)
                  (cr_ReadSize r + of_nat (length ?c))
                  (chunks ?n (file_contents (cr_Reader ?r'))) w'" for w'
      using less.hyps [OF shorter cb', of w'] by (simp add: advance_fields)
    show ?thesis
      apply (subst UploadObject_stream.simps)
      apply (simp only: ch spec_upload_chunks.simps)
      using False c less.prems
      apply (simp add: IH wcb_def advance_fields split: prod.splits option.splits)
      done
  qed
qed

lemma spec_upload_returns:
  "\<exists>res. fst (spec_upload_chunks E link (Some g) tot sent cs w) = Return res"
proof (induction cs arbitrary: sent w)
  case Nil
  show ?case by simp
next
  case (Cons c cs)
  show ?case
  proof (cases "http_send E (href link) c w")
    case (Pair e w1)
    obtain x w2 where g: "g tot (sent + of_nat (length c)) (int (length c)) w1 = (x, w2)"
      by (cases "g tot (sent + of_nat (length c)) (int (length c)) w1") auto
    obtain res w3 evs where
      rest: "spec_upload_chunks E link (Some g) tot (sent + of_nat (length c)) cs w2 =
               (res, w3, evs)"
      by (cases "spec_upload_chunks E link (Some g) tot (sent + of_nat (length c)) cs w2") auto
    from Cons.IH [of "sent + of_nat (length c)" w2] rest
    obtain y where "res = Return y" by auto
    with Pair g rest show ?thesis
      by (cases e) simp_all
  qed
qed

lemma stream_returns:
  assumes "cr_C r = wcb (Some g)"
  shows "\<exists>res. fst (UploadObject_stream E link r w) = Return res"
proof (cases "bufferSize E = 0")
  case True
  then show ?thesis
    by (subst UploadObject_stream.simps) simp
next
  case False
  then have "0 < bufferSize E" by simp
  from stream_refines [OF this assms] spec_upload_returns show ?thesis
    by metis
qed

lemma spec_upload_events:
  "prefix (snd (snd (spec_upload_chunks E link cb tot sent cs w)))
     (stream_events tot sent (href link) cs) \<and>
   (fst (spec_upload_chunks E link cb tot sent cs w) = Return None \<longrightarrow>
      snd (snd (spec_upload_chunks E link cb tot sent cs w)) =
        stream_events tot sent (href link) cs)"
proof (induction cs arbitrary: sent w)
  case Nil
  show ?case by simp
next
  case (Cons c cs)
  show ?case
  proof (cases "http_send E (href link) c w")
    case (Pair e w1)
    show ?thesis
    proof (cases cb)
      case None
      with Pair show ?thesis by (cases e) simp_all
    next
      case (Some g)
      obtain x w2 where g: "g tot (sent + of_nat (length c)) (int (length c)) w1 = (x, w2)"
        by (cases "g tot (sent + of_nat (length c)) (int (length c)) w1") auto
      obtain res w3 evs where
        rest: "spec_upload_chunks E link cb tot (sent + of_nat (length c)) cs w2 =
                 (res, w3, evs)"
        by (cases "spec_upload_chunks E link cb tot (sent + of_nat (length c)) cs w2") auto
      from Cons.IH [of "sent + of_nat (length c)" w2] rest
      have "prefix evs (stream_events tot (sent + of_nat (length c)) (href link) cs)"
        and "res = Return None \<Longrightarrow>
             evs = stream_events tot (sent + of_nat (length c)) (href link) cs"
        by simp_all
      with Pair Some g rest show ?thesis
        by (cases e) simp_all
    qed
  qed
qed

lemma sent_bytes_stream_events: "sent_bytes (stream_events tot sent url cs) = concat cs"
  by (induction cs arbitrary: sent) simp_all

lemma Transfer_refines:
  assumes "u_object u = Some obj"
    and "LocalMediaPath E (obj_Oid obj) w = (Inr path, w1)"
    and "os_Open E path w1 = Inr f"
    and "map_of (obj_Actions obj) ''upload'' = Some link"
    and "0 < bufferSize E"
  shows "Transfer E u cb w =
           (case spec_upload_chunks E link cb (obj_Size obj) 0
                   (chunks (bufferSize E) (file_contents f)) w1 of
              (res, w2, evs) \<Rightarrow>
                (res, w2,
                 [EvLocalMediaPath (obj_Oid obj), EvOpen path] @ evs @ [EvClose (file_Name f)]))"
proof -
  let ?r = "\<lparr>cr_C = wcb cb, cr_TotalSize = obj_Size obj, cr_ReadSize = 0, cr_Reader = f\<rparr>"
  have "cr_C ?r = wcb cb" by simp
  from stream_refines [OF assms(5) this, of link w1] assms(1-4) show ?thesis
    by (simp add: Transfer_def UploadObject_def)
qed

lemma demo_path:
  "LocalMediaPath demo_env (obj_Oid demo_object) demo_world = (Inr ''/cas/abc'', demo_world)"
  by (simp add: demo_env_def demo_object_def)

lemma demo_open:
  "os_Open demo_env ''/cas/abc'' demo_world =
     Inr \<lparr>file_Name = ''/cas/abc'', file_contents = ''abc''\<rparr>"
  by (simp add: demo_env_def demo_world_def)

lemma demo_buffer: "0 < bufferSize demo_env"
  by (simp add: demo_env_def)

lemma demo_authorized:
  "u_object (SetObject demo_uploadable (Some demo_object)) = Some demo_object"
  by (simp add: SetObject_def)

lemma demo_link:
  "map_of (obj_Actions demo_object) ''upload'' =
     Some \<lparr>href = ''https://remote/abc'', header = [], expires_at = 100\<rparr>"
  by (simp add: demo_object_def)

lemma demo_chunks: "chunks 2 ''abc'' = [''ab'', ''c'']"
  by (simp add: chunks.simps)

subsection \<open>The fields of an Uploadable over its lifetime\<close>

lemma apply_call_fields:
  "apply_call E c (u, w) = Return (u', w') \<Longrightarrow>
   u' = u\<lparr>u_object := last_SetObject [c] (u_object u)\<rparr>"
  by (cases c) (auto simp: apply_call_def SetObject_def split: prod.splits outcome.splits)

lemma run_calls_fields:
  "run_calls E cs (u, w) = Return (u', w') \<Longrightarrow>
   u' = u\<lparr>u_object := last_SetObject cs (u_object u)\<rparr>"
proof (induction cs arbitrary: u w)
  case Nil
  then show ?case by simp
next
  case (Cons c cs)
  from Cons.prems obtain u1 w1 where
    a: "apply_call E c (u, w) = Return (u1, w1)" and r: "run_calls E cs (u1, w1) = Return (u', w')"
    by (auto split: outcome.splits)
  from apply_call_fields [OF a] have u1: "u1 = u\<lparr>u_object := last_SetObject [c] (u_object u)\<rparr>" .
  from Cons.IH [OF r] have "u' = u1\<lparr>u_object := last_SetObject cs (u_object u1)\<rparr>" .
  with u1 show ?case by (cases c) simp_all
qed

lemma last_SetObject_none:
  "\<forall>x. CallSetObject x \<notin> set cs \<Longrightarrow> last_SetObject cs y = y"
  by (induction cs y rule: last_SetObject.induct) auto

subsection \<open>Transfer\<close>

text \<open>
  C6.  Take an \<open>Uploadable\<close> whose \<open>ObjectResource\<close> is set, a local media path for
  the resource's OID, an object that opens at that path, an \<open>upload\<close> link and a
  transport that takes at least one byte at a time.  \<open>Transfer\<close> asks for the path
  of the resource's OID, opens it, uploads, and closes the file; its result, the
  world it leaves and its calls in between are those of the upload the spec
  describes, run on the chunks of the opened file with the resource's size as the
  total and the count starting at zero.  The chunks make up the file.  So the calls
  of the upload are, chunk by chunk, the chunk sent to the URL of the link and then
  the callback with the resource's size, the bytes sent so far and the length of the
  chunk; a run that fails stops inside that sequence, and a run that returns nil has
  gone through all of it and has sent exactly the bytes of the file.
\<close>

theorem Transfer_streams_object:
  assumes "u_object u = Some obj"
    and "LocalMediaPath E (obj_Oid obj) w = (Inr path, w1)"
    and "os_Open E path w1 = Inr f"
    and "map_of (obj_Actions obj) ''upload'' = Some link"
    and "0 < bufferSize E"
  shows "Transfer E u cb w =
           (case spec_upload_chunks E link cb (obj_Size obj) 0
                   (chunks (bufferSize E) (file_contents f)) w1 of
              (res, w2, evs) \<Rightarrow>
                (res, w2,
                 [EvLocalMediaPath (obj_Oid obj), EvOpen path] @ evs @ [EvClose (file_Name f)])) \<and>
         concat (chunks (bufferSize E) (file_contents f)) = file_contents f \<and>
         (\<exists>evs. snd (snd (Transfer E u cb w)) =
                  [EvLocalMediaPath (obj_Oid obj), EvOpen path] @ evs @ [EvClose (file_Name f)] \<and>
                prefix evs (stream_events (obj_Size obj) 0 (href link)
                              (chunks (bufferSize E) (file_contents f))) \<and>
                (fst (Transfer E u cb w) = Return None \<longrightarrow>
                   evs = stream_events (obj_Size obj) 0 (href link)
                           (chunks (bufferSize E) (file_contents f)) \<and>
                   sent_bytes evs = file_contents f))"
proof -
  let ?cs = "chunks (bufferSize E) (file_contents f)"
  obtain res w2 evs where
    run: "spec_upload_chunks E link cb (obj_Size obj) 0 ?cs w1 = (res, w2, evs)"
    by (cases "spec_upload_chunks E link cb (obj_Size obj) 0 ?cs w1") auto
  from Transfer_refines [OF assms, of cb] run
  have tr: "Transfer E u cb w =
              (res, w2, [EvLocalMediaPath (obj_Oid obj), EvOpen path] @ evs @ [EvClose (file_Name f)])"
    by simp
  have cc: "concat ?cs = file_contents f"
    using assms(5) by (rule concat_chunks)
  from spec_upload_events [of E link cb "obj_Size obj" 0 ?cs w1] run
  have p: "prefix evs (stream_events (obj_Size obj) 0 (href link) ?cs)"
    and q: "res = Return None \<Longrightarrow> evs = stream_events (obj_Size obj) 0 (href link) ?cs"
    by simp_all
  have s: "res = Return None \<Longrightarrow> sent_bytes evs = file_contents f"
    using q cc by (simp add: sent_bytes_stream_events)
  from tr run cc p q s show ?thesis by auto
qed

theorem Transfer_streams_object_witness:
  "fst (Transfer demo_env (SetObject demo_uploadable (Some demo_object)) (Some demo_callback)
          demo_world) = Return None \<and>
   fst (snd (Transfer demo_env (SetObject demo_uploadable (Some demo_object))
               (Some demo_callback) demo_world)) ''https://remote/abc'' = Some ''abc'' \<and>
   snd (snd (Transfer demo_env (SetObject demo_uploadable (Some demo_object))
               (Some demo_callback) demo_world)) =
     [EvLocalMediaPath ''abc'', EvOpen ''/cas/abc'',
      EvSend ''https://remote/abc'' ''ab'', EvProgress 3 2 2,
      EvSend ''https://remote/abc'' ''c'', EvProgress 3 3 1,
      EvClose ''/cas/abc''] \<and>
   fst (Transfer flaky_env (SetObject demo_uploadable (Some demo_object)) (Some demo_callback)
          demo_world) = Return (Some (UploadError (Other ''connection reset''))) \<and>
   fst (snd (Transfer flaky_env (SetObject demo_uploadable (Some demo_object))
               (Some demo_callback) demo_world)) ''https://remote/abc'' = Some ''ab'' \<and>
   snd (snd (Transfer flaky_env (SetObject demo_uploadable (Some demo_object))
               (Some demo_callback) demo_world)) =
     [EvLocalMediaPath ''abc'', EvOpen ''/cas/abc'',
      EvSend ''https://remote/abc'' ''ab'', EvProgress 3 2 2,
      EvSend ''https://remote/abc'' ''c'', EvClose ''/cas/abc''] \<and>
   Transfer late_env (SetObject demo_uploadable (Some demo_object)) (Some demo_callback)
     demo_world =
     (Return (Some AuthExpired), demo_world,
      [EvLocalMediaPath ''abc'', EvOpen ''/cas/abc'', EvClose ''/cas/abc''])"
proof -
  let ?f = "\<lparr>file_Name = ''/cas/abc'', file_contents = ''abc''\<rparr>"
  let ?u = "SetObject demo_uploadable (Some demo_object)"
  have a: "LocalMediaPath demo_env (obj_Oid demo_object) demo_world =
             (Inr ''/cas/abc'', demo_world)"
    by (simp add: demo_env_def demo_object_def)
  have b: "os_Open demo_env ''/cas/abc'' demo_world = Inr ?f"
    by (simp add: demo_env_def demo_world_def)
  have d: "0 < bufferSize demo_env"
    by (simp add: demo_env_def)
  have a1: "LocalMediaPath flaky_env (obj_Oid demo_object) demo_world =
             (Inr ''/cas/abc'', demo_world)"
    by (simp add: flaky_env_def demo_env_def demo_object_def)
  have b1: "os_Open flaky_env ''/cas/abc'' demo_world = Inr ?f"
    by (simp add: flaky_env_def demo_env_def demo_world_def)
  have d1: "0 < bufferSize flaky_env"
    by (simp add: flaky_env_def demo_env_def)
  have a2: "LocalMediaPath late_env (obj_Oid demo_object) demo_world =
             (Inr ''/cas/abc'', demo_world)"
    by (simp add: late_env_def demo_env_def demo_object_def)
  have b2: "os_Open late_env ''/cas/abc'' demo_world = Inr ?f"
    by (simp add: late_env_def demo_env_def demo_world_def)
  have d2: "0 < bufferSize late_env"
    by (simp add: late_env_def demo_env_def)
  have r: "Transfer demo_env ?u (Some demo_callback) demo_world =
             (Return None, demo_world(''https://remote/abc'' \<mapsto> ''abc''),
              [EvLocalMediaPath ''abc'', EvOpen ''/cas/abc'',
               EvSend ''https://remote/abc'' ''ab'', EvProgress 3 2 2,
               EvSend ''https://remote/abc'' ''c'', EvProgress 3 3 1,
               EvClose ''/cas/abc''])"
    using Transfer_streams_object [OF demo_authorized a b demo_link d, of "Some demo_callback",
            THEN conjunct1]
    by (simp add: demo_env_def demo_chunks demo_object_def demo_callback_def demo_world_def)
  have r1: "Transfer flaky_env ?u (Some demo_callback) demo_world =
             (Return (Some (UploadError (Other ''connection reset''))),
              demo_world(''https://remote/abc'' \<mapsto> ''ab''),
              [EvLocalMediaPath ''abc'', EvOpen ''/cas/abc'',
               EvSend ''https://remote/abc'' ''ab'', EvProgress 3 2 2,
               EvSend ''https://remote/abc'' ''c'', EvClose ''/cas/abc''])"
    using Transfer_streams_object [OF demo_authorized a1 b1 demo_link d1, of "Some demo_callback",
            THEN conjunct1]
    by (simp add: flaky_env_def demo_env_def demo_chunks demo_object_def demo_callback_def
          demo_world_def)
  have r2: "Transfer late_env ?u (Some demo_callback) demo_world =
             (Return (Some AuthExpired), demo_world,
              [EvLocalMediaPath ''abc'', EvOpen ''/cas/abc'', EvClose ''/cas/abc''])"
    using Transfer_streams_object [OF demo_authorized a2 b2 demo_link d2, of "Some demo_callback",
            THEN conjunct1]
    by (simp add: late_env_def demo_env_def demo_chunks demo_object_def)
  from r r1 r2 show ?thesis by simp
qed

text \<open>
  C8, as the claim has it, fails twice.  \<open>SetObject\<close> with a resource, then
  \<open>SetObject\<close> with nil, then \<open>Transfer\<close>: a non-nil resource was set before the
  transfer, and the transfer panics.  And with the resource in place, \<open>Transfer\<close>
  panics on a nil callback, at the first chunk it reports.
\<close>

theorem Transfer_nil_counterexample:
  "run_calls demo_env
     [CallSetObject (Some demo_object), CallSetObject None, CallTransfer (Some demo_callback)]
     (demo_uploadable, demo_world) = Panic \<and>
   u_object (SetObject demo_uploadable (Some demo_object)) = Some demo_object \<and>
   fst (Transfer demo_env (SetObject demo_uploadable (Some demo_object)) None demo_world) = Panic"
proof -
  have a: "run_calls demo_env
     [CallSetObject (Some demo_object), CallSetObject None, CallTransfer (Some demo_callback)]
     (demo_uploadable, demo_world) = Panic"
    by (simp add: apply_call_def SetObject_def Transfer_def)
  have b: "fst (Transfer demo_env (SetObject demo_uploadable (Some demo_object)) None
                  demo_world) = Panic"
    using Transfer_refines [OF demo_authorized demo_path demo_open demo_link demo_buffer, of None]
    by (simp add: demo_env_def demo_chunks demo_object_def demo_world_def)
  from a demo_authorized b show ?thesis by simp
qed

text \<open>
  C8, amended.  \<open>Transfer\<close> on an \<open>Uploadable\<close> whose \<open>ObjectResource\<close> is nil when
  it is called panics before it calls anything.  With an \<open>ObjectResource\<close> that is
  not nil when \<open>Transfer\<close> is called and a callback that is not nil, \<open>Transfer\<close>
  does not panic: it returns, with nil or an error.  After any calls of the methods,
  the \<open>ObjectResource\<close> is the argument of the latest \<open>SetObject\<close>, so it is that
  call which decides.
\<close>

theorem Transfer_panic_or_return:
  "(u_object u = None \<longrightarrow> Transfer E u cb w = (Panic, w, [])) \<and>
   (u_object u = Some obj \<and> cb = Some g \<longrightarrow> (\<exists>res. fst (Transfer E u cb w) = Return res)) \<and>
   (run_calls E cs (u0, w0) = Return (u, w) \<longrightarrow> Object u = last_SetObject cs (Object u0))"
proof -
  have "\<exists>res. fst (Transfer E u cb w) = Return res"
    if o: "u_object u = Some obj" and cb: "cb = Some g"
  proof -
    have "\<exists>res. fst (UploadObject_stream E link
                  \<lparr>cr_C = wcb cb, cr_TotalSize = obj_Size obj, cr_ReadSize = 0, cr_Reader = f\<rparr> w1)
                = Return res" for link f w1
      using cb by (intro stream_returns) simp
    then show ?thesis
      using o
      by (auto simp: Transfer_def UploadObject_def Let_def
               split: prod.splits sum.splits option.splits)
         (metis fst_conv)
  qed
  moreover have "Object u = last_SetObject cs (Object u0)"
    if "run_calls E cs (u0, w0) = Return (u, w)"
    using run_calls_fields [OF that] by (simp add: Object_def)
  ultimately show ?thesis by (simp add: Transfer_def)
qed

theorem Transfer_panic_or_return_witness:
  "Transfer demo_env demo_uploadable (Some demo_callback) demo_world = (Panic, demo_world, []) \<and>
   (\<exists>res. fst (Transfer demo_env (SetObject demo_uploadable (Some demo_object))
                 (Some demo_callback) demo_world) = Return res) \<and>
   run_calls demo_env [CallSetObject None, CallSetObject (Some demo_object)]
     (demo_uploadable, demo_world) =
     Return (SetObject demo_uploadable (Some demo_object), demo_world) \<and>
   Object (SetObject demo_uploadable (Some demo_object)) = Some demo_object"
proof -
  have n: "u_object demo_uploadable = None"
    by (simp add: demo_uploadable_def)
  from Transfer_panic_or_return [THEN conjunct1, rule_format, OF n]
  have a: "Transfer demo_env demo_uploadable (Some demo_callback) demo_world =
             (Panic, demo_world, [])" .
  from Transfer_panic_or_return [THEN conjunct2, THEN conjunct1, rule_format,
         OF conjI [OF demo_authorized refl]]
  have b: "\<exists>res. fst (Transfer demo_env (SetObject demo_uploadable (Some demo_object))
                 (Some demo_callback) demo_world) = Return res" .
  have r: "run_calls demo_env [CallSetObject None, CallSetObject (Some demo_object)]
             (demo_uploadable, demo_world) =
           Return (SetObject demo_uploadable (Some demo_object), demo_world)"
    by (simp add: apply_call_def SetObject_def)
  from Transfer_panic_or_return [THEN conjunct2, THEN conjunct2, rule_format, OF r]
  have c: "Object (SetObject demo_uploadable (Some demo_object)) = Some demo_object"
    by simp
  from a b r c show ?thesis by blast
qed

subsection \<open>Setting the ObjectResource\<close>

text \<open>
  C7, as the claim has it, fails: \<open>SetObject\<close> assigns whenever it is called, so a
  second call replaces the \<open>ObjectResource\<close> that the first one set, and no
  authorization is asked for.
\<close>

theorem SetObject_twice_counterexample:
  "Object (SetObject demo_uploadable (Some demo_object)) = Some demo_object \<and>
   Object (SetObject (SetObject demo_uploadable (Some demo_object)) (Some other_object)) =
     Some other_object \<and>
   demo_object \<noteq> other_object"
  by (simp add: Object_def SetObject_def demo_object_def other_object_def)

text \<open>
  C7, amended.  After any calls of its methods, an \<open>Uploadable\<close> built by
  \<open>NewUploadable\<close> differs from the one that was built in its \<open>ObjectResource\<close> at
  most: \<open>Oid()\<close> is the \<open>oid\<close> it was built with, and \<open>Object()\<close> is the argument
  of the latest \<open>SetObject\<close>, nil when \<open>SetObject\<close> has not been called.
\<close>

theorem Uploadable_fields_protocol:
  assumes "NewUploadable E oid filename w0 = (Return (Inr u), w, evs)"
    and "run_calls E cs (u, w) = Return (u', w')"
  shows "Oid u' = oid \<and> u' = u\<lparr>u_object := last_SetObject cs None\<rparr> \<and>
         Object u' = last_SetObject cs None \<and>
         ((\<forall>x. CallSetObject x \<notin> set cs) \<longrightarrow> Object u' = None)"
proof -
  from assms(1) have u: "u_oid u = oid" "u_object u = None"
    by (auto simp: NewUploadable_def split: sum.splits prod.splits outcome.splits option.splits if_splits)
  from run_calls_fields [OF assms(2)] u show ?thesis
    by (simp add: Oid_def Object_def last_SetObject_none)
qed

theorem Uploadable_fields_protocol_witness:
  "run_calls demo_env [CallCheck, CallOid, CallSetObject (Some demo_object), CallObject]
     (demo_uploadable, demo_world) =
     Return (SetObject demo_uploadable (Some demo_object), demo_world) \<and>
   Oid (SetObject demo_uploadable (Some demo_object)) = ''abc'' \<and>
   Object (SetObject demo_uploadable (Some demo_object)) = Some demo_object \<and>
   run_calls demo_env [CallCheck, CallOid] (demo_uploadable, demo_world) =
     Return (demo_uploadable, demo_world) \<and>
   Object demo_uploadable = None"
proof -
  have r0: "run_calls demo_env [CallCheck, CallOid] (demo_uploadable, demo_world) =
              Return (demo_uploadable, demo_world)"
    by (simp add: apply_call_def Check_def demo_env_def)
  have no: "\<forall>x. CallSetObject x \<notin> set [CallCheck, CallOid :: fsys method_call]"
    by simp
  have n: "NewUploadable demo_env ''abc'' ''a.bin'' demo_world =
     (Return (Inr demo_uploadable), demo_world,
      [EvLocalMediaPath ''abc'', EvEnsureFile ''a.bin'' ''/cas/abc'', EvStat ''/cas/abc'',
       EvStat ''/cas/abc''])"
    by (simp add: NewUploadable_def ensureFile_def demo_env_def demo_world_def
          demo_uploadable_def)
  have r: "run_calls demo_env [CallCheck, CallOid, CallSetObject (Some demo_object), CallObject]
             (demo_uploadable, demo_world) =
           Return (SetObject demo_uploadable (Some demo_object), demo_world)"
    by (simp add: apply_call_def Check_def demo_env_def)
  have l: "last_SetObject
             [CallCheck, CallOid, CallSetObject (Some demo_object), CallObject :: fsys method_call]
             None = Some demo_object"
    by simp
  from Uploadable_fields_protocol [OF n r]
  have "Oid (SetObject demo_uploadable (Some demo_object)) = ''abc'' \<and>
        Object (SetObject demo_uploadable (Some demo_object)) =
          last_SetObject
            [CallCheck, CallOid, CallSetObject (Some demo_object), CallObject :: fsys method_call]
            None"
    by blast
  with l
  have c: "Oid (SetObject demo_uploadable (Some demo_object)) = ''abc'' \<and>
           Object (SetObject demo_uploadable (Some demo_object)) = Some demo_object"
    by simp
  from Uploadable_fields_protocol [OF n r0] no
  have d: "Object demo_uploadable = None"
    by blast
  from r c r0 d show ?thesis by blast
qed

end
